theory Spec2Isabelle
  imports Main "HOL-Library.Word"
begin

section \<open>The script \<^verbatim>\<open>create_user.py\<close>\<close>

text \<open>
  The whole program is
  \<^verbatim>\<open>
  import bcrypt

  password = "TestPassword123!"
  salt = bcrypt.gensalt()
  hash = bcrypt.hashpw(password.encode('utf-8'), salt)
  print(hash.decode('utf-8'))
  \<close>
  It is a Python 3 script. It is modelled as a function from the state of the process
  before the run to the exit status and the state after it. What belongs to the Python language (\<open>str.encode\<close>,
  \<open>bytes.decode\<close>, \<open>print\<close>, the fate of an uncaught exception) is defined below.
  The two functions of the third-party package \<open>bcrypt\<close> are not part of the program:
  the model of the script takes them as a parameter and fixes nothing about what they
  compute. Two libraries are then defined to run it with: the hashing scheme as the
  specification describes it, and a stand-in that gives fixed answers.
\<close>

subsection \<open>Python values\<close>

type_synonym byte = "8 word"

text \<open>A \<open>bytes\<close> object is a sequence of bytes; a \<open>str\<close> is a sequence of code points.\<close>

type_synonym bytes = "byte list"
type_synonym str = "nat list"

text \<open>A string literal of the source, as the \<open>str\<close> of its code points.\<close>

definition lit :: "string \<Rightarrow> str" where
  "lit cs = map of_char cs"

definition newline :: nat where
  "newline = 10"

text \<open>A bytes literal \<open>b"..."\<close>.\<close>

definition blit :: "string \<Rightarrow> bytes" where
  "blit cs = map of_char cs"

text \<open>
  The exceptions that the run can meet. \<open>OSError\<close> is what a failing random source
  raises, \<open>ValueError\<close> and \<open>TypeError\<close> are what the hashing library raises on
  arguments it rejects, the two Unicode errors come from the codec, and
  \<open>AttributeError\<close> from looking up a method that an object does not have. Any other
  exception class is \<open>OtherError\<close> with its name.
\<close>

datatype exn =
    OSError
  | ValueError
  | TypeError
  | AttributeError
  | UnicodeEncodeError
  | UnicodeDecodeError
  | OtherError string

fun exn_name :: "exn \<Rightarrow> string" where
  "exn_name OSError = ''OSError''"
| "exn_name ValueError = ''ValueError''"
| "exn_name TypeError = ''TypeError''"
| "exn_name AttributeError = ''AttributeError''"
| "exn_name UnicodeEncodeError = ''UnicodeEncodeError''"
| "exn_name UnicodeDecodeError = ''UnicodeDecodeError''"
| "exn_name (OtherError n) = n"

subsection \<open>The UTF-8 codec, with error handler \<open>strict\<close>\<close>

text \<open>
  \<open>str.encode('utf-8')\<close>: one to four bytes per code point. The surrogates
  \<open>U+D800 .. U+DFFF\<close> cannot be encoded and raise \<open>UnicodeEncodeError\<close>. A Python
  \<open>str\<close> holds no code point above \<open>U+10FFFF\<close>; the model rejects such a number
  as well.
\<close>

definition encode_cp :: "nat \<Rightarrow> bytes option" where
  "encode_cp c =
     (if c < 0x80 then Some [of_nat c]
      else if c < 0x800 then
        Some [of_nat (0xC0 + c div 64), of_nat (0x80 + c mod 64)]
      else if 0xD800 \<le> c \<and> c \<le> 0xDFFF then None
      else if c < 0x10000 then
        Some [of_nat (0xE0 + c div 4096), of_nat (0x80 + c div 64 mod 64),
              of_nat (0x80 + c mod 64)]
      else if c < 0x110000 then
        Some [of_nat (0xF0 + c div 262144), of_nat (0x80 + c div 4096 mod 64),
              of_nat (0x80 + c div 64 mod 64), of_nat (0x80 + c mod 64)]
      else None)"

fun str_encode :: "str \<Rightarrow> exn + bytes" where
  "str_encode [] = Inr []"
| "str_encode (c # cs) =
     (case encode_cp c of
        None \<Rightarrow> Inl UnicodeEncodeError
      | Some bs \<Rightarrow>
          (case str_encode cs of
             Inl e \<Rightarrow> Inl e
           | Inr rest \<Rightarrow> Inr (bs @ rest)))"

text \<open>
  \<open>bytes.decode('utf-8')\<close>: the decoder accepts exactly the well-formed sequences of
  the Unicode standard. A continuation byte lies in \<open>80 .. BF\<close>; the lead bytes
  \<open>C0\<close>, \<open>C1\<close> and \<open>F5 .. FF\<close> never occur; after \<open>E0\<close> and \<open>F0\<close> the
  second byte is bounded below (no overlong form), after \<open>ED\<close> and \<open>F4\<close> it is
  bounded above (no surrogate, nothing beyond \<open>U+10FFFF\<close>). Anything else, and a
  sequence cut short, raises \<open>UnicodeDecodeError\<close>.
\<close>

definition is_cont :: "byte \<Rightarrow> bool" where
  "is_cont b = (0x80 \<le> unat b \<and> unat b \<le> 0xBF)"

fun decode_cp :: "bytes \<Rightarrow> (nat \<times> bytes) option" where
  "decode_cp [] = None"
| "decode_cp (b0 # bs) =
     (let n0 = unat b0 in
      if n0 < 0x80 then Some (n0, bs)
      else if n0 < 0xC2 then None
      else if n0 < 0xE0 then
        (case bs of
           b1 # r \<Rightarrow>
             if is_cont b1
             then Some ((n0 - 0xC0) * 64 + (unat b1 - 0x80), r)
             else None
         | _ \<Rightarrow> None)
      else if n0 < 0xF0 then
        (case bs of
           b1 # b2 # r \<Rightarrow>
             if is_cont b1 \<and> is_cont b2
                \<and> (if n0 = 0xE0 then 0xA0 \<le> unat b1 else True)
                \<and> (if n0 = 0xED then unat b1 \<le> 0x9F else True)
             then Some ((n0 - 0xE0) * 4096 + (unat b1 - 0x80) * 64 + (unat b2 - 0x80), r)
             else None
         | _ \<Rightarrow> None)
      else if n0 < 0xF5 then
        (case bs of
           b1 # b2 # b3 # r \<Rightarrow>
             if is_cont b1 \<and> is_cont b2 \<and> is_cont b3
                \<and> (if n0 = 0xF0 then 0x90 \<le> unat b1 else True)
                \<and> (if n0 = 0xF4 then unat b1 \<le> 0x8F else True)
             then Some ((n0 - 0xF0) * 262144 + (unat b1 - 0x80) * 4096
                        + (unat b2 - 0x80) * 64 + (unat b3 - 0x80), r)
             else None
         | _ \<Rightarrow> None)
      else None)"

function bytes_decode :: "bytes \<Rightarrow> exn + str" where
  "bytes_decode bs =
     (if bs = [] then Inr []
      else
        (case decode_cp bs of
           None \<Rightarrow> Inl UnicodeDecodeError
         | Some (c, r) \<Rightarrow>
             (case bytes_decode r of
                Inl e \<Rightarrow> Inl e
              | Inr cs \<Rightarrow> Inr (c # cs))))"
  by pat_completeness auto
termination
proof (relation "measure length")
  show "wf (measure length)" by simp
next
  fix bs :: bytes and x2 :: "nat \<times> bytes" and c :: nat and r :: bytes
  assume "bs \<noteq> []" and "decode_cp bs = Some x2" and "(c, r) = x2"
  then have "decode_cp bs = Some (c, r)" by simp
  then have "length r < length bs"
    by (cases bs) (auto simp: Let_def split: if_splits list.splits)
  then show "(r, bs) \<in> measure length" by simp
qed

declare bytes_decode.simps [simp del]

subsection \<open>The process\<close>

text \<open>
  What the run can change: the text written to standard output and to the error stream,
  and the file system. The two streams are text streams; the model records the text
  handed to them, not the bytes into which the stream then encodes it. \<open>calls\<close> is a ghost field: it records, in order, each call
  into the library with its arguments.
\<close>

datatype lib_call = Gensalt | Hashpw bytes bytes

record proc =
  stdout :: str
  stderr :: str
  files :: "string \<rightharpoonup> bytes"
  calls :: "lib_call list"

text \<open>
  The package \<open>bcrypt\<close>. \<open>gensalt\<close> reads the random source of the operating
  system, whose state at the call is its argument; \<open>hashpw\<close> takes the password
  bytes and the salt. Either may raise.
\<close>

record 'r bcrypt =
  gensalt :: "'r \<Rightarrow> exn + bytes"
  hashpw :: "bytes \<Rightarrow> bytes \<Rightarrow> exn + bytes"

text \<open>\<open>print(s)\<close> writes \<open>s\<close> and a newline to standard output.\<close>

definition print :: "str \<Rightarrow> proc \<Rightarrow> proc" where
  "print s w = w\<lparr>stdout := stdout w @ s @ [newline]\<rparr>"

text \<open>
  An exception that nothing catches ends the interpreter: it writes a traceback to the
  error stream and exits with status 1. The traceback starts with a fixed header line and
  ends with the line naming the exception; the frame lines between them (file name and
  line number) and the message after the name are left out of the model.
\<close>

definition traceback :: "exn \<Rightarrow> str" where
  "traceback e =
     lit ''Traceback (most recent call last):'' @ [newline] @ lit (exn_name e) @ [newline]"

definition uncaught :: "exn \<Rightarrow> proc \<Rightarrow> nat \<times> proc" where
  "uncaught e w = (1, w\<lparr>stderr := stderr w @ traceback e\<rparr>)"

definition password :: str where
  "password = lit ''TestPassword123!''"

text \<open>
  The module body, statement by statement. There is no \<open>try\<close> in the source, so each
  exception goes to \<open>uncaught\<close>. In line 5 the argument \<open>password.encode('utf-8')\<close>
  is evaluated before \<open>hashpw\<close> is called. A run that reaches the end exits with
  status 0.
\<close>

definition main :: "'r bcrypt \<Rightarrow> 'r \<Rightarrow> proc \<Rightarrow> nat \<times> proc" where
  "main lib rnd w0 =
     (let w1 = w0\<lparr>calls := calls w0 @ [Gensalt]\<rparr> in
      case gensalt lib rnd of
        Inl e \<Rightarrow> uncaught e w1
      | Inr salt \<Rightarrow>
          (case str_encode password of
             Inl e \<Rightarrow> uncaught e w1
           | Inr pw \<Rightarrow>
               (let w2 = w1\<lparr>calls := calls w1 @ [Hashpw pw salt]\<rparr> in
                case hashpw lib pw salt of
                  Inl e \<Rightarrow> uncaught e w2
                | Inr hash \<Rightarrow>
                    (case bytes_decode hash of
                       Inl e \<Rightarrow> uncaught e w2
                     | Inr text \<Rightarrow> (0, print text w2)))))"

text \<open>The process as it starts: nothing written yet, any file system.\<close>

definition start :: "(string \<rightharpoonup> bytes) \<Rightarrow> proc" where
  "start fs = \<lparr>stdout = [], stderr = [], files = fs, calls = []\<rparr>"

text \<open>
  Modelled from the spec: the longest plaintext that the hashing scheme supports, 72
  bytes. The constant belongs to the library, not to the script.
\<close>

definition max_password_bytes :: nat where
  "max_password_bytes = 72"

text \<open>A byte string is ASCII-only when every byte is below \<open>0x80\<close>.\<close>

definition ascii_only :: "bytes \<Rightarrow> bool" where
  "ascii_only bs = list_all (\<lambda>b. unat b < 0x80) bs"

text \<open>The plaintexts that a sequence of library calls passes to \<open>hashpw\<close>.\<close>

fun hashpw_plaintexts :: "lib_call list \<Rightarrow> bytes list" where
  "hashpw_plaintexts [] = []"
| "hashpw_plaintexts (Gensalt # cs) = hashpw_plaintexts cs"
| "hashpw_plaintexts (Hashpw p s # cs) = p # hashpw_plaintexts cs"

subsection \<open>The hashing scheme, as the specification describes it\<close>

text \<open>
  The package \<open>bcrypt\<close> is not part of the repository: the script only calls it. The
  definitions of this subsection follow the specification's description of the scheme
  (operations \<open>GenerateSalt\<close> and \<open>Hash\<close>, error taxonomy, the scenario of section 8).
  What the specification leaves open is a parameter: the draws of the random source and
  the function \<open>hv\<close> that computes the hash value.
\<close>

text \<open>
  Modelled from the spec: the error \<open>EntropyUnavailable\<close> of the library's salt
  generator, raised when the random source cannot produce bytes.
\<close>

definition EntropyUnavailable :: exn where
  "EntropyUnavailable = OtherError ''EntropyUnavailable''"

text \<open>
  Modelled from the spec: the error \<open>InputTooLong\<close> of the library's hash function,
  raised when the plaintext exceeds the maximum supported length.
\<close>

definition InputTooLong :: exn where
  "InputTooLong = OtherError ''InputTooLong''"

text \<open>
  Modelled from the spec: the error \<open>InvalidSalt\<close> of the library's hash function,
  raised when the salt is malformed.
\<close>

definition InvalidSalt :: exn where
  "InvalidSalt = OtherError ''InvalidSalt''"

text \<open>
  Modelled from the spec: the characters of the library's digest text. The specification
  asks for a display-safe, ASCII-safe textual form and does not list the characters; the
  model takes the 64 characters \<open>.\<close>, \<open>/\<close>, \<open>A-Z\<close>, \<open>a-z\<close>, \<open>0-9\<close>.
\<close>

definition alphabet :: string where
  "alphabet = ''./ABCDEFGHIJKLMNOPQRSTUVWXYZabcdefghijklmnopqrstuvwxyz0123456789''"

text \<open>
  Modelled from the spec: the library's text encoding of one digit, the character of the
  alphabet at that position (positions are taken modulo 64).
\<close>

definition sym :: "nat \<Rightarrow> char" where
  "sym n = alphabet ! (n mod 64)"

text \<open>
  Modelled from the spec: the algorithm/version tag with the default cost factor that the
  library's salt generator uses, \<open>$2b$12$\<close> in the scenario of section 8.
\<close>

definition default_tag :: string where
  "default_tag = ''$2b$12$''"

text \<open>
  Modelled from the spec: the random part of the salt that the library generates. The
  scenario gives 53 characters after the tag; 22 of them are the salt and 31 the hash
  value. \<open>draw i\<close> is the \<open>i\<close>-th draw from the random source.
\<close>

definition salt_text :: "(nat \<Rightarrow> nat) \<Rightarrow> string" where
  "salt_text draw = map (\<lambda>i. sym (draw i)) [0..<22]"

text \<open>
  Modelled from the spec: the library's operation \<open>GenerateSalt()\<close>, called without a
  cost factor. The argument is the state of the random source: \<open>None\<close> when it cannot
  produce bytes, which fails with \<open>EntropyUnavailable\<close>; otherwise its draws, and the
  result is the default tag followed by the fresh salt.
\<close>

definition GenerateSalt :: "(nat \<Rightarrow> nat) option \<Rightarrow> exn + bytes" where
  "GenerateSalt src =
     (case src of
        None \<Rightarrow> Inl EntropyUnavailable
      | Some draw \<Rightarrow> Inr (blit (default_tag @ salt_text draw)))"

text \<open>
  Modelled from the spec: when the library takes a salt as well-formed. It has the layout
  that \<open>GenerateSalt\<close> produces: the algorithm tag \<open>$2b$\<close>, a cost factor of two
  decimal digits, the delimiter, and 22 characters of the alphabet.
\<close>

definition well_formed_salt :: "bytes \<Rightarrow> bool" where
  "well_formed_salt s =
     (case s of
        d0 # t0 # t1 # d1 # c0 # c1 # d2 # body \<Rightarrow>
          [d0, t0, t1, d1] = blit ''$2b$''
          \<and> c0 \<in> set (blit ''0123456789'') \<and> c1 \<in> set (blit ''0123456789'')
          \<and> [d2] = blit ''$''
          \<and> length body = 22 \<and> set body \<subseteq> set (blit alphabet)
      | _ \<Rightarrow> False)"

text \<open>
  Modelled from the spec: the text of the hash value in the library's digest, 31
  characters. The specification does not describe the computation; \<open>hv p s i\<close> is the
  \<open>i\<close>-th digit of the hash value of plaintext \<open>p\<close> under salt \<open>s\<close>.
\<close>

definition hash_text :: "(bytes \<Rightarrow> bytes \<Rightarrow> nat \<Rightarrow> nat) \<Rightarrow> bytes \<Rightarrow> bytes \<Rightarrow> string" where
  "hash_text hv p s = map (\<lambda>i. sym (hv p s i)) [0..<31]"

text \<open>
  Modelled from the spec: the library's operation \<open>Hash(plaintext, salt)\<close>. It fails with
  \<open>InputTooLong\<close> when the plaintext exceeds the maximum supported length and with
  \<open>InvalidSalt\<close> when the salt is malformed. Otherwise the digest is self-describing:
  the salt string (tag, cost factor, salt) followed by the hash value. The specification
  leaves the empty plaintext open; the model accepts it.
\<close>

definition Hash :: "(bytes \<Rightarrow> bytes \<Rightarrow> nat \<Rightarrow> nat) \<Rightarrow> bytes \<Rightarrow> bytes \<Rightarrow> exn + bytes" where
  "Hash hv p s =
     (if max_password_bytes < length p then Inl InputTooLong
      else if \<not> well_formed_salt s then Inl InvalidSalt
      else Inr (s @ blit (hash_text hv p s)))"

text \<open>
  Modelled from the spec: the library as a whole, the two operations above under the names
  by which the script calls them.
\<close>

definition spec_bcrypt :: "(bytes \<Rightarrow> bytes \<Rightarrow> nat \<Rightarrow> nat) \<Rightarrow> ((nat \<Rightarrow> nat) option) bcrypt" where
  "spec_bcrypt hv = \<lparr>gensalt = GenerateSalt, hashpw = Hash hv\<rparr>"

subsection \<open>A stand-in library for concrete runs\<close>

text \<open>
  To run the model on a concrete input, \<open>stub_lib s h\<close> answers every call of
  \<open>gensalt\<close> with \<open>s\<close> and every call of \<open>hashpw\<close> with \<open>h\<close>. The sample salt
  and digest below have the layout of the library's output (tag, cost, 22 characters of
  salt, 31 characters of hash value); they are fixed text, not computed from the password.
\<close>

definition stub_lib :: "exn + bytes \<Rightarrow> exn + bytes \<Rightarrow> unit bcrypt" where
  "stub_lib s h = \<lparr>gensalt = (\<lambda>_. s), hashpw = (\<lambda>_ _. h)\<rparr>"

definition sample_salt :: string where
  "sample_salt = ''$2b$12$abcdefghijklmnopqrstuu''"

definition sample_digest :: string where
  "sample_digest = ''$2b$12$abcdefghijklmnopqrstuuABCDEFGHIJKLMNOPQRSTUVWXYZ01234''"

section \<open>The codec\<close>

text \<open>
  Arithmetic of the multi-byte forms: a code point assembled from a lead byte and its
  continuation bytes is encoded back to the same bytes.
\<close>

lemma div64: "r < 64 \<Longrightarrow> (q * 64 + r) div 64 = (q::nat)"
  by simp

lemma mod64: "r < 64 \<Longrightarrow> (q * 64 + r) mod 64 = (r::nat)"
  by simp

lemma enc2:
  assumes "0xC2 \<le> n0" "n0 < 0xE0" "0x80 \<le> n1" "n1 \<le> 0xBF"
  shows "encode_cp ((n0 - 0xC0) * 64 + (n1 - 0x80)) = Some [of_nat n0, of_nat n1]"
proof -
  define a where "a = n0 - 0xC0"
  define b where "b = n1 - 0x80"
  define c where "c = a * 64 + b"
  have ab: "2 \<le> a" "a < 32" "b < 64"
    using assms by (simp_all add: a_def b_def)
  have bk: "0xC0 + a = n0" "0x80 + b = n1"
    using assms by (simp_all add: a_def b_def)
  have d: "c div 64 = a" "c mod 64 = b"
    using ab by (simp_all add: c_def)
  have r: "\<not> c < 0x80" "c < 0x800"
    using ab by (simp_all add: c_def)
  have "encode_cp c = Some [of_nat (0xC0 + a), of_nat (0x80 + b)]"
    using r d by (simp add: encode_cp_def)
  moreover have "(n0 - 0xC0) * 64 + (n1 - 0x80) = c"
    by (simp add: c_def a_def b_def)
  ultimately show ?thesis
    by (simp only: bk)
qed

lemma enc3:
  assumes "0xE0 \<le> n0" "n0 < 0xF0" "0x80 \<le> n1" "n1 \<le> 0xBF" "0x80 \<le> n2" "n2 \<le> 0xBF"
    and c1: "n0 = 0xE0 \<Longrightarrow> 0xA0 \<le> n1" and c2: "n0 = 0xED \<Longrightarrow> n1 \<le> 0x9F"
  shows "encode_cp ((n0 - 0xE0) * 4096 + (n1 - 0x80) * 64 + (n2 - 0x80))
         = Some [of_nat n0, of_nat n1, of_nat n2]"
proof -
  define a where "a = n0 - 0xE0"
  define b where "b = n1 - 0x80"
  define d where "d = n2 - 0x80"
  define c where "c = a * 4096 + b * 64 + d"
  have ab: "a < 16" "b < 64" "d < 64"
    using assms(1-6) by (simp_all add: a_def b_def d_def)
  have bk: "0xE0 + a = n0" "0x80 + b = n1" "0x80 + d = n2"
    using assms(1-6) by (simp_all add: a_def b_def d_def)
  have lo: "32 \<le> b" if "a = 0"
  proof -
    from that bk(1) have "n0 = 0xE0" by simp
    from c1 [OF this] show ?thesis by (simp add: b_def)
  qed
  have hi: "b \<le> 31" if "a = 13"
  proof -
    from that bk(1) have "n0 = 0xED" by simp
    from c2 [OF this] show ?thesis by (simp add: b_def)
  qed
  have nest: "c = (a * 64 + b) * 64 + d"
    by (simp add: c_def)
  have dv: "c div 4096 = a" "c div 64 mod 64 = b" "c mod 64 = d"
  proof -
    show "c div 4096 = a" using ab by (simp add: c_def)
    have "c div 64 = a * 64 + b" unfolding nest using ab(3) by (rule div64)
    then show "c div 64 mod 64 = b" using ab(2) by (simp only: mod64)
    show "c mod 64 = d" unfolding nest using ab(3) by (rule mod64)
  qed
  have r1: "\<not> c < 0x800"
  proof (cases "a = 0")
    case True then show ?thesis using lo by (simp add: c_def)
  next
    case False then show ?thesis by (simp add: c_def)
  qed
  have r2: "\<not> (0xD800 \<le> c \<and> c \<le> 0xDFFF)"
  proof -
    consider "a < 13" | "a = 13" | "13 < a" by linarith
    then show ?thesis
    proof cases
      case 1 then show ?thesis using ab by (simp add: c_def)
    next
      case 2 then show ?thesis using hi ab by (simp add: c_def)
    next
      case 3 then show ?thesis using ab by (simp add: c_def)
    qed
  qed
  have r3: "c < 0x10000" using ab by (simp add: c_def)
  have "encode_cp c = Some [of_nat (0xE0 + a), of_nat (0x80 + b), of_nat (0x80 + d)]"
    using r1 r2 r3 dv by (simp add: encode_cp_def)
  moreover have "(n0 - 0xE0) * 4096 + (n1 - 0x80) * 64 + (n2 - 0x80) = c"
    by (simp add: c_def a_def b_def d_def)
  ultimately show ?thesis
    by (simp only: bk)
qed

lemma enc4:
  assumes "0xF0 \<le> n0" "n0 < 0xF5" "0x80 \<le> n1" "n1 \<le> 0xBF" "0x80 \<le> n2" "n2 \<le> 0xBF"
    "0x80 \<le> n3" "n3 \<le> 0xBF"
    and c1: "n0 = 0xF0 \<Longrightarrow> 0x90 \<le> n1" and c2: "n0 = 0xF4 \<Longrightarrow> n1 \<le> 0x8F"
  shows "encode_cp ((n0 - 0xF0) * 262144 + (n1 - 0x80) * 4096 + (n2 - 0x80) * 64 + (n3 - 0x80))
         = Some [of_nat n0, of_nat n1, of_nat n2, of_nat n3]"
proof -
  define a where "a = n0 - 0xF0"
  define b where "b = n1 - 0x80"
  define d where "d = n2 - 0x80"
  define e where "e = n3 - 0x80"
  define c where "c = a * 262144 + b * 4096 + d * 64 + e"
  have ab: "a < 5" "b < 64" "d < 64" "e < 64"
    using assms(1-8) by (simp_all add: a_def b_def d_def e_def)
  have bk: "0xF0 + a = n0" "0x80 + b = n1" "0x80 + d = n2" "0x80 + e = n3"
    using assms(1-8) by (simp_all add: a_def b_def d_def e_def)
  have lo: "16 \<le> b" if "a = 0"
  proof -
    from that bk(1) have "n0 = 0xF0" by simp
    from c1 [OF this] show ?thesis by (simp add: b_def)
  qed
  have hi: "b \<le> 15" if "a = 4"
  proof -
    from that bk(1) have "n0 = 0xF4" by simp
    from c2 [OF this] show ?thesis by (simp add: b_def)
  qed
  have nest: "c = ((a * 64 + b) * 64 + d) * 64 + e"
    by (simp add: c_def)
  have nest2: "c = (a * 64 + b) * 4096 + (d * 64 + e)"
    by (simp add: c_def)
  have dv: "c div 262144 = a" "c div 4096 mod 64 = b" "c div 64 mod 64 = d" "c mod 64 = e"
  proof -
    show "c div 262144 = a" using ab by (simp add: c_def)
    have "d * 64 + e < 4096" using ab by simp
    then have "c div 4096 = a * 64 + b" by (simp add: nest2)
    then show "c div 4096 mod 64 = b" using ab(2) by (simp only: mod64)
    have "c div 64 = (a * 64 + b) * 64 + d" unfolding nest using ab(4) by (rule div64)
    then show "c div 64 mod 64 = d" using ab(3) by (simp only: mod64)
    show "c mod 64 = e" unfolding nest using ab(4) by (rule mod64)
  qed
  have r1: "\<not> c < 0x10000"
  proof (cases "a = 0")
    case True then show ?thesis using lo by (simp add: c_def)
  next
    case False then show ?thesis by (simp add: c_def)
  qed
  have r3: "c < 0x110000"
  proof (cases "a = 4")
    case True then show ?thesis using hi ab by (simp add: c_def)
  next
    case False then have "a \<le> 3" using ab by simp
    then show ?thesis using ab by (simp add: c_def)
  qed
  have "encode_cp c = Some [of_nat (0xF0 + a), of_nat (0x80 + b), of_nat (0x80 + d), of_nat (0x80 + e)]"
    using r1 r3 dv by (simp add: encode_cp_def)
  moreover have "(n0 - 0xF0) * 262144 + (n1 - 0x80) * 4096 + (n2 - 0x80) * 64 + (n3 - 0x80) = c"
    by (simp add: c_def a_def b_def d_def e_def)
  ultimately show ?thesis
    by (simp only: bk)
qed

text \<open>
  Decoding one code point consumes exactly the bytes that encoding it produces, so the
  decoder has a left inverse: text that was decoded from \<open>bs\<close> encodes to \<open>bs\<close>.
\<close>

lemma decode_cp_encode:
  assumes "decode_cp bs = Some (c, r)"
  shows "\<exists>enc. encode_cp c = Some enc \<and> enc \<noteq> [] \<and> bs = enc @ r"
proof (cases bs)
  case Nil
  with assms show ?thesis by simp
next
  case (Cons b0 t)
  define n0 where "n0 = unat b0"
  have b0: "of_nat n0 = b0" by (simp add: n0_def)
  consider "n0 < 0x80" | "0xC2 \<le> n0 \<and> n0 < 0xE0" | "0xE0 \<le> n0 \<and> n0 < 0xF0"
    | "0xF0 \<le> n0 \<and> n0 < 0xF5" | "0x80 \<le> n0 \<and> n0 < 0xC2" | "0xF5 \<le> n0"
    by linarith
  then show ?thesis
  proof cases
    case 1
    with assms Cons have "c = n0" "r = t" by (simp_all add: n0_def Let_def)
    with 1 Cons b0 show ?thesis by (simp add: encode_cp_def)
  next
    case 2
    with assms Cons obtain b1 where t: "t = b1 # r" and k: "is_cont b1"
      and c: "c = (n0 - 0xC0) * 64 + (unat b1 - 0x80)"
      by (auto simp: n0_def Let_def split: list.splits if_splits)
    from k have "0x80 \<le> unat b1" "unat b1 \<le> 0xBF" by (simp_all add: is_cont_def)
    with 2 have "encode_cp c = Some [of_nat n0, of_nat (unat b1)]"
      unfolding c by (intro enc2) simp_all
    with Cons t b0 show ?thesis by simp
  next
    case 3
    with assms Cons obtain b1 b2 where t: "t = b1 # b2 # r" and k: "is_cont b1" "is_cont b2"
      and lo: "n0 = 0xE0 \<Longrightarrow> 0xA0 \<le> unat b1" and hi: "n0 = 0xED \<Longrightarrow> unat b1 \<le> 0x9F"
      and c: "c = (n0 - 0xE0) * 4096 + (unat b1 - 0x80) * 64 + (unat b2 - 0x80)"
      by (auto simp: n0_def Let_def split: list.splits if_splits)
    from k have "0x80 \<le> unat b1" "unat b1 \<le> 0xBF" "0x80 \<le> unat b2" "unat b2 \<le> 0xBF"
      by (simp_all add: is_cont_def)
    with 3 lo hi have "encode_cp c = Some [of_nat n0, of_nat (unat b1), of_nat (unat b2)]"
      unfolding c by (intro enc3) simp_all
    with Cons t b0 show ?thesis by simp
  next
    case 4
    with assms Cons obtain b1 b2 b3 where t: "t = b1 # b2 # b3 # r"
      and k: "is_cont b1" "is_cont b2" "is_cont b3"
      and lo: "n0 = 0xF0 \<Longrightarrow> 0x90 \<le> unat b1" and hi: "n0 = 0xF4 \<Longrightarrow> unat b1 \<le> 0x8F"
      and c: "c = (n0 - 0xF0) * 262144 + (unat b1 - 0x80) * 4096 + (unat b2 - 0x80) * 64
                  + (unat b3 - 0x80)"
      by (auto simp: n0_def Let_def split: list.splits if_splits)
    from k have "0x80 \<le> unat b1" "unat b1 \<le> 0xBF" "0x80 \<le> unat b2" "unat b2 \<le> 0xBF"
      "0x80 \<le> unat b3" "unat b3 \<le> 0xBF"
      by (simp_all add: is_cont_def)
    with 4 lo hi have "encode_cp c = Some [of_nat n0, of_nat (unat b1), of_nat (unat b2), of_nat (unat b3)]"
      unfolding c by (intro enc4) simp_all
    with Cons t b0 show ?thesis by simp
  next
    case 5
    with assms Cons show ?thesis by (simp add: n0_def Let_def)
  next
    case 6
    with assms Cons show ?thesis by (simp add: n0_def Let_def)
  qed
qed

lemma decode_then_encode:
  "bytes_decode bs = Inr cs \<Longrightarrow> str_encode cs = Inr bs"
proof (induction bs arbitrary: cs rule: bytes_decode.induct)
  case (1 bs)
  show ?case
  proof (cases "bs = []")
    case True
    with "1.prems" show ?thesis by (simp add: bytes_decode.simps)
  next
    case False
    with "1.prems" obtain c r cs' where d: "decode_cp bs = Some (c, r)"
      and rr: "bytes_decode r = Inr cs'" and cs: "cs = c # cs'"
      by (subst (asm) bytes_decode.simps) (auto split: option.splits sum.splits)
    from "1.IH" [OF False d refl rr] have "str_encode cs' = Inr r" .
    moreover from decode_cp_encode [OF d] obtain enc where
      "encode_cp c = Some enc" "bs = enc @ r" by blast
    ultimately show ?thesis by (simp add: cs)
  qed
qed

text \<open>ASCII bytes decode one to one.\<close>

lemma decode_ascii:
  "list_all (\<lambda>b. unat b < 0x80) bs \<Longrightarrow> bytes_decode bs = Inr (map unat bs)"
proof (induction bs)
  case Nil
  show ?case by (simp add: bytes_decode.simps)
next
  case (Cons b bs)
  then show ?case by (subst bytes_decode.simps) simp
qed

lemma decode_ascii_only:
  "ascii_only bs \<Longrightarrow> bytes_decode bs = Inr (map unat bs)"
  unfolding ascii_only_def by (rule decode_ascii)

section \<open>The run\<close>

text \<open>The literal password is plain ASCII: it encodes to its sixteen characters.\<close>

lemma password_utf8: "str_encode password = Inr (blit ''TestPassword123!'')"
  by code_simp

lemma hashpw_plaintexts_append:
  "hashpw_plaintexts (xs @ ys) = hashpw_plaintexts xs @ hashpw_plaintexts ys"
  by (induction xs rule: hashpw_plaintexts.induct) simp_all

lemma traceback_nonempty: "traceback e \<noteq> []"
  by (simp add: traceback_def)

lemma main_gensalt_raises:
  assumes "gensalt lib rnd = Inl e"
  shows "main lib rnd w = uncaught e (w\<lparr>calls := calls w @ [Gensalt]\<rparr>)"
  using assms by (simp add: main_def)

lemma main_hashpw_raises:
  assumes "gensalt lib rnd = Inr salt"
    and "hashpw lib (blit ''TestPassword123!'') salt = Inl e"
  shows "main lib rnd w =
         uncaught e (w\<lparr>calls := calls w @ [Gensalt, Hashpw (blit ''TestPassword123!'') salt]\<rparr>)"
  using assms by (simp add: main_def password_utf8)

lemma main_decode_raises:
  assumes "gensalt lib rnd = Inr salt"
    and "hashpw lib (blit ''TestPassword123!'') salt = Inr hash"
    and "bytes_decode hash = Inl e"
  shows "main lib rnd w =
         uncaught e (w\<lparr>calls := calls w @ [Gensalt, Hashpw (blit ''TestPassword123!'') salt]\<rparr>)"
  using assms by (simp add: main_def password_utf8)

lemma main_returns:
  assumes "gensalt lib rnd = Inr salt"
    and "hashpw lib (blit ''TestPassword123!'') salt = Inr hash"
    and "bytes_decode hash = Inr text"
  shows "main lib rnd w =
         (0, print text (w\<lparr>calls := calls w @ [Gensalt, Hashpw (blit ''TestPassword123!'') salt]\<rparr>))"
  using assms by (simp add: main_def password_utf8)

text \<open>
  Whatever the library does, the run calls \<open>hashpw\<close> at most once, and then with the
  encoded literal as plaintext.
\<close>

lemma main_hashpw_calls:
  "hashpw_plaintexts (calls (snd (main lib rnd (start fs)))) = []
   \<or> hashpw_plaintexts (calls (snd (main lib rnd (start fs)))) = [blit ''TestPassword123!'']"
proof (cases "gensalt lib rnd")
  case (Inl e)
  then show ?thesis
    by (simp add: main_gensalt_raises uncaught_def start_def)
next
  case salt: (Inr salt)
  show ?thesis
  proof (cases "hashpw lib (blit ''TestPassword123!'') salt")
    case (Inl e)
    with salt show ?thesis
      by (simp add: main_hashpw_raises uncaught_def start_def)
  next
    case hash: (Inr hash)
    show ?thesis
    proof (cases "bytes_decode hash")
      case (Inl e)
      with salt hash show ?thesis
        by (simp add: main_decode_raises uncaught_def start_def)
    next
      case (Inr rendered)
      with salt hash show ?thesis
        by (simp add: main_returns print_def start_def)
    qed
  qed
qed

text \<open>
  C5. On a run in which no step raises, the exit status is 0, standard output grows by
  exactly the rendered digest followed by one newline, and nothing else changes: the error
  stream and the file system are as they were.
\<close>

theorem successful_run_prints_digest_only:
  assumes "gensalt lib rnd = Inr salt"
    and "hashpw lib (blit ''TestPassword123!'') salt = Inr hash"
    and "bytes_decode hash = Inr text"
  shows "fst (main lib rnd w) = 0
       \<and> stdout (snd (main lib rnd w)) = stdout w @ text @ [newline]
       \<and> stderr (snd (main lib rnd w)) = stderr w
       \<and> files (snd (main lib rnd w)) = files w"
  by (simp add: main_returns [OF assms] print_def)

theorem successful_run_prints_digest_only_witness:
  "fst (main (stub_lib (Inr (blit sample_salt)) (Inr (blit sample_digest))) ()
          (start Map.empty)) = 0
   \<and> stdout (snd (main (stub_lib (Inr (blit sample_salt)) (Inr (blit sample_digest))) ()
          (start Map.empty))) = lit sample_digest @ [newline]
   \<and> stderr (snd (main (stub_lib (Inr (blit sample_salt)) (Inr (blit sample_digest))) ()
          (start Map.empty))) = []
   \<and> files (snd (main (stub_lib (Inr (blit sample_salt)) (Inr (blit sample_digest))) ()
          (start Map.empty))) = Map.empty"
proof -
  let ?lib = "stub_lib (Inr (blit sample_salt)) (Inr (blit sample_digest))"
  have g: "gensalt ?lib () = Inr (blit sample_salt)"
    by (simp add: stub_lib_def)
  have h: "hashpw ?lib (blit ''TestPassword123!'') (blit sample_salt) = Inr (blit sample_digest)"
    by (simp add: stub_lib_def)
  have d: "bytes_decode (blit sample_digest) = Inr (lit sample_digest)"
    by code_simp
  from successful_run_prints_digest_only [OF g h d, of "start Map.empty"]
  show ?thesis by (simp add: start_def)
qed

text \<open>
  C6. Whichever step raises (salt generation, hashing or rendering), nothing catches the
  exception: the exit status is 1, the traceback of that exception is appended to the
  error stream and is not empty, standard output and the file system are untouched, so no
  digest is printed, and nothing is tried again: \<open>gensalt\<close> has been called once and
  \<open>hashpw\<close> at most once.
\<close>

theorem uncaught_exception_is_fatal:
  assumes "gensalt lib rnd = Inl e
         \<or> (\<exists>salt. gensalt lib rnd = Inr salt
                \<and> hashpw lib (blit ''TestPassword123!'') salt = Inl e)
         \<or> (\<exists>salt hash. gensalt lib rnd = Inr salt
                \<and> hashpw lib (blit ''TestPassword123!'') salt = Inr hash
                \<and> bytes_decode hash = Inl e)"
  shows "fst (main lib rnd w) = 1
       \<and> stdout (snd (main lib rnd w)) = stdout w
       \<and> stderr (snd (main lib rnd w)) = stderr w @ traceback e
       \<and> traceback e \<noteq> []
       \<and> files (snd (main lib rnd w)) = files w
       \<and> count_list (calls (snd (main lib rnd w))) Gensalt = count_list (calls w) Gensalt + 1
       \<and> length (hashpw_plaintexts (calls (snd (main lib rnd w))))
           \<le> length (hashpw_plaintexts (calls w)) + 1"
proof -
  let ?P = "blit ''TestPassword123!''"
  from assms consider
      (gen) "gensalt lib rnd = Inl e"
    | (hash) salt where "gensalt lib rnd = Inr salt" "hashpw lib ?P salt = Inl e"
    | (dec) salt hash where "gensalt lib rnd = Inr salt" "hashpw lib ?P salt = Inr hash"
        "bytes_decode hash = Inl e"
    by blast
  then show ?thesis
  proof cases
    case gen
    show ?thesis
      by (simp add: main_gensalt_raises [OF gen] uncaught_def traceback_nonempty
          hashpw_plaintexts_append)
  next
    case hash
    show ?thesis
      by (simp add: main_hashpw_raises [OF hash] uncaught_def traceback_nonempty
          hashpw_plaintexts_append)
  next
    case dec
    show ?thesis
      by (simp add: main_decode_raises [OF dec] uncaught_def traceback_nonempty
          hashpw_plaintexts_append)
  qed
qed

theorem uncaught_exception_is_fatal_witness:
  "fst (main (stub_lib (Inr (blit sample_salt)) (Inl ValueError)) () (start Map.empty)) = 1
   \<and> stdout (snd (main (stub_lib (Inr (blit sample_salt)) (Inl ValueError)) ()
          (start Map.empty))) = []
   \<and> stderr (snd (main (stub_lib (Inr (blit sample_salt)) (Inl ValueError)) ()
          (start Map.empty))) = traceback ValueError
   \<and> files (snd (main (stub_lib (Inr (blit sample_salt)) (Inl ValueError)) ()
          (start Map.empty))) = Map.empty"
proof -
  let ?lib = "stub_lib (Inr (blit sample_salt)) (Inl ValueError)"
  have h: "gensalt ?lib () = Inl ValueError
         \<or> (\<exists>salt. gensalt ?lib () = Inr salt
                \<and> hashpw ?lib (blit ''TestPassword123!'') salt = Inl ValueError)
         \<or> (\<exists>salt hash. gensalt ?lib () = Inr salt
                \<and> hashpw ?lib (blit ''TestPassword123!'') salt = Inr hash
                \<and> bytes_decode hash = Inl ValueError)"
    by (simp add: stub_lib_def)
  from uncaught_exception_is_fatal [OF h, of "start Map.empty"]
  show ?thesis by (simp add: start_def)
qed

section \<open>The script with the hashing scheme of the specification\<close>

text \<open>Bytes written as a literal are read back as the same characters.\<close>

lemma unat_of_char: "unat (of_char c :: byte) = of_char c"
proof -
  have "(of_char c :: byte) = of_nat (of_char c)"
    by (simp only: of_nat_of_char)
  then have "unat (of_char c :: byte) = (of_char c :: nat) mod 2 ^ 8"
    by (simp add: unat_of_nat)
  then show ?thesis by simp
qed

lemma map_unat_blit: "map unat (blit cs) = lit cs"
  by (simp add: blit_def lit_def unat_of_char)

lemma ascii_only_blit:
  "ascii_only (blit cs) = list_all (\<lambda>c. of_char c < (0x80::nat)) cs"
  by (simp add: ascii_only_def blit_def list_all_iff unat_of_char)

lemma ascii_only_append: "ascii_only (xs @ ys) = (ascii_only xs \<and> ascii_only ys)"
  by (simp add: ascii_only_def)

lemma alphabet_length: "length alphabet = 64"
  by (simp add: alphabet_def)

lemma alphabet_ascii: "list_all (\<lambda>c. of_char c < (0x80::nat)) alphabet"
  by (simp add: alphabet_def)

lemma sym_in_alphabet: "sym n \<in> set alphabet"
  by (simp add: sym_def alphabet_length)

lemma sym_ascii: "of_char (sym n) < (0x80::nat)"
  using alphabet_ascii sym_in_alphabet [of n] by (simp add: list_all_iff)

lemma salt_text_length: "length (salt_text draw) = 22"
  by (simp add: salt_text_def)

lemma hash_text_length: "length (hash_text hv p s) = 31"
  by (simp add: hash_text_def)

lemma salt_text_alphabet: "set (salt_text draw) \<subseteq> set alphabet"
  by (auto simp: salt_text_def sym_in_alphabet)

lemma hash_text_ascii: "ascii_only (blit (hash_text hv p s))"
  by (simp add: ascii_only_blit hash_text_def list_all_iff sym_ascii)

lemma generated_salt_well_formed:
  "well_formed_salt (blit (default_tag @ salt_text draw))"
  using salt_text_alphabet [of draw]
  by (auto simp: well_formed_salt_def default_tag_def blit_def salt_text_length)

lemma well_formed_salt_ascii:
  assumes "well_formed_salt s"
  shows "ascii_only s"
proof -
  from assms obtain c0 c1 body where s: "s = blit ''$2b$'' @ [c0, c1] @ blit ''$'' @ body"
    and c: "c0 \<in> set (blit ''0123456789'')" "c1 \<in> set (blit ''0123456789'')"
    and b: "set body \<subseteq> set (blit alphabet)"
    by (auto simp: well_formed_salt_def blit_def split: list.splits)
  have d: "ascii_only (blit ''0123456789'')"
    by (simp add: ascii_only_blit)
  have a: "ascii_only (blit alphabet)"
    by (simp add: ascii_only_blit alphabet_ascii)
  from c d have "ascii_only [c0, c1]"
    by (simp add: ascii_only_def list_all_iff)
  moreover from b a have "ascii_only body"
    by (auto simp: ascii_only_def list_all_iff)
  moreover have "ascii_only (blit ''$2b$'')" "ascii_only (blit ''$'')"
    by (simp_all add: ascii_only_blit)
  ultimately show ?thesis
    unfolding s by (simp only: ascii_only_append)
qed

lemma Hash_digest_ascii:
  assumes "Hash hv p s = Inr d"
  shows "ascii_only d"
proof -
  from assms have w: "well_formed_salt s" and d: "d = s @ blit (hash_text hv p s)"
    by (auto simp: Hash_def split: if_splits)
  from well_formed_salt_ascii [OF w] show ?thesis
    by (simp add: d ascii_only_append hash_text_ascii)
qed

lemma Hash_literal:
  "Hash hv (blit ''TestPassword123!'') (blit (default_tag @ salt_text draw))
   = Inr (blit (default_tag @ salt_text draw)
          @ blit (hash_text hv (blit ''TestPassword123!'') (blit (default_tag @ salt_text draw))))"
proof -
  have "\<not> max_password_bytes < length (blit ''TestPassword123!'')"
    by (simp add: max_password_bytes_def blit_def)
  then show ?thesis
    by (simp add: Hash_def generated_salt_well_formed)
qed

text \<open>
  With a working random source the run goes through: the generated salt is well-formed,
  the literal is accepted, the digest decodes, and the text printed is the digest.
\<close>

lemma spec_run_returns:
  "main (spec_bcrypt hv) (Some draw) w =
     (0, print (lit (default_tag @ salt_text draw
                     @ hash_text hv (blit ''TestPassword123!'') (blit (default_tag @ salt_text draw))))
           (w\<lparr>calls := calls w @ [Gensalt,
                 Hashpw (blit ''TestPassword123!'') (blit (default_tag @ salt_text draw))]\<rparr>))"
proof -
  let ?salt = "blit (default_tag @ salt_text draw)"
  let ?hash = "?salt @ blit (hash_text hv (blit ''TestPassword123!'') ?salt)"
  have g: "gensalt (spec_bcrypt hv) (Some draw) = Inr ?salt"
    by (simp add: spec_bcrypt_def GenerateSalt_def)
  have h: "hashpw (spec_bcrypt hv) (blit ''TestPassword123!'') ?salt = Inr ?hash"
    by (simp add: spec_bcrypt_def Hash_literal)
  have "ascii_only ?hash"
    using Hash_literal [of hv draw] by (rule Hash_digest_ascii)
  then have "bytes_decode ?hash = Inr (map unat ?hash)"
    by (rule decode_ascii_only)
  then have d: "bytes_decode ?hash
      = Inr (lit (default_tag @ salt_text draw @ hash_text hv (blit ''TestPassword123!'') ?salt))"
    by (simp add: map_unat_blit lit_def)
  show ?thesis
    by (rule main_returns [OF g h d])
qed

text \<open>
  C2. For the literal password and the hashing scheme of the specification, whatever the
  random draws and the hash value, the run ends with status 0 and what it prints is the
  tag \<open>$2b$12$\<close> followed by exactly 53 further characters (the salt and the hash
  value), 60 characters in all, and then the newline of \<open>print\<close>.
\<close>

theorem emitted_string_is_tag_and_53_characters:
  "fst (main (spec_bcrypt hv) (Some draw) (start fs)) = 0
   \<and> stdout (snd (main (spec_bcrypt hv) (Some draw) (start fs)))
       = lit ''$2b$12$''
         @ lit (salt_text draw
                @ hash_text hv (blit ''TestPassword123!'') (blit (''$2b$12$'' @ salt_text draw)))
         @ [newline]
   \<and> length (lit (salt_text draw
                @ hash_text hv (blit ''TestPassword123!'') (blit (''$2b$12$'' @ salt_text draw))))
       = 53
   \<and> length (lit ''$2b$12$''
         @ lit (salt_text draw
                @ hash_text hv (blit ''TestPassword123!'') (blit (''$2b$12$'' @ salt_text draw))))
       = 60"
  by (simp add: spec_run_returns print_def start_def lit_def default_tag_def
      salt_text_length hash_text_length)

theorem emitted_string_is_tag_and_53_characters_witness:
  "fst (main (spec_bcrypt (\<lambda>p s i. i + 22)) (Some (\<lambda>i. i)) (start Map.empty)) = 0
   \<and> stdout (snd (main (spec_bcrypt (\<lambda>p s i. i + 22)) (Some (\<lambda>i. i)) (start Map.empty)))
       = lit ''$2b$12$'' @ lit ''./ABCDEFGHIJKLMNOPQRSTUVWXYZabcdefghijklmnopqrstuvwxy''
         @ [newline]"
proof -
  have "salt_text (\<lambda>i. i)
        @ hash_text (\<lambda>p s i. i + 22) (blit ''TestPassword123!'')
            (blit (''$2b$12$'' @ salt_text (\<lambda>i. i)))
        = ''./ABCDEFGHIJKLMNOPQRSTUVWXYZabcdefghijklmnopqrstuvwxy''"
    by code_simp
  with emitted_string_is_tag_and_53_characters
         [of "\<lambda>p s i. i + 22" "\<lambda>i. i" Map.empty]
  show ?thesis by simp
qed

text \<open>
  C10. The literal password encodes to 16 bytes, below the limit of 72 bytes. With the
  hashing scheme of the specification the hashing call of the script never fails with
  \<open>InputTooLong\<close>, whatever the salt, and every run calls \<open>hashpw\<close> at most once and
  only with these 16 bytes. Every digest that \<open>Hash\<close> returns is ASCII-only, so decoding
  it does not raise: it gives one code point per byte. Hence a run with a working random
  source ends with status 0, and the only run that fails is the one whose random source
  is unavailable, which fails in \<open>gensalt\<close>.
\<close>

theorem literal_never_too_long_and_digest_always_decodes:
  "str_encode password = Inr (blit ''TestPassword123!'')
   \<and> length (blit ''TestPassword123!'') = 16
   \<and> length (blit ''TestPassword123!'') < max_password_bytes
   \<and> Hash hv (blit ''TestPassword123!'') s \<noteq> Inl InputTooLong
   \<and> (hashpw_plaintexts (calls (snd (main (spec_bcrypt hv) src (start fs)))) = []
      \<or> hashpw_plaintexts (calls (snd (main (spec_bcrypt hv) src (start fs))))
         = [blit ''TestPassword123!''])
   \<and> (Hash hv p s = Inr d \<longrightarrow> ascii_only d \<and> bytes_decode d = Inr (map unat d))
   \<and> fst (main (spec_bcrypt hv) (Some draw) w) = 0
   \<and> main (spec_bcrypt hv) None w
       = uncaught EntropyUnavailable (w\<lparr>calls := calls w @ [Gensalt]\<rparr>)"
proof (intro conjI impI)
  show "str_encode password = Inr (blit ''TestPassword123!'')"
    by (rule password_utf8)
  show "length (blit ''TestPassword123!'') = 16"
    by (simp add: blit_def)
  show "length (blit ''TestPassword123!'') < max_password_bytes"
    by (simp add: blit_def max_password_bytes_def)
  have "\<not> max_password_bytes < length (blit ''TestPassword123!'')"
    by (simp add: blit_def max_password_bytes_def)
  then show "Hash hv (blit ''TestPassword123!'') s \<noteq> Inl InputTooLong"
    by (simp add: Hash_def InvalidSalt_def InputTooLong_def)
  show "hashpw_plaintexts (calls (snd (main (spec_bcrypt hv) src (start fs)))) = []
      \<or> hashpw_plaintexts (calls (snd (main (spec_bcrypt hv) src (start fs))))
         = [blit ''TestPassword123!'']"
    by (rule main_hashpw_calls)
  show "fst (main (spec_bcrypt hv) (Some draw) w) = 0"
    by (simp add: spec_run_returns)
  show "main (spec_bcrypt hv) None w
       = uncaught EntropyUnavailable (w\<lparr>calls := calls w @ [Gensalt]\<rparr>)"
    by (rule main_gensalt_raises) (simp add: spec_bcrypt_def GenerateSalt_def)
next
  assume a: "Hash hv p s = Inr d"
  then show "ascii_only d"
    by (rule Hash_digest_ascii)
  then show "bytes_decode d = Inr (map unat d)"
    by (rule decode_ascii_only)
qed

theorem literal_never_too_long_and_digest_always_decodes_witness:
  "Hash (\<lambda>p s i. i + 22) (blit ''TestPassword123!'') (blit sample_salt)
     = Inr (blit ''$2b$12$abcdefghijklmnopqrstuuUVWXYZabcdefghijklmnopqrstuvwxy'')
   \<and> ascii_only (blit ''$2b$12$abcdefghijklmnopqrstuuUVWXYZabcdefghijklmnopqrstuvwxy'')
   \<and> bytes_decode (blit ''$2b$12$abcdefghijklmnopqrstuuUVWXYZabcdefghijklmnopqrstuvwxy'')
       = Inr (lit ''$2b$12$abcdefghijklmnopqrstuuUVWXYZabcdefghijklmnopqrstuvwxy'')
   \<and> fst (main (spec_bcrypt (\<lambda>p s i. i + 22)) (Some (\<lambda>i. i)) (start Map.empty)) = 0"
proof -
  let ?d = "blit ''$2b$12$abcdefghijklmnopqrstuuUVWXYZabcdefghijklmnopqrstuvwxy''"
  have h: "Hash (\<lambda>p s i. i + 22) (blit ''TestPassword123!'') (blit sample_salt) = Inr ?d"
    by code_simp
  from literal_never_too_long_and_digest_always_decodes
         [of "\<lambda>p s i. i + 22" "blit sample_salt" None Map.empty "blit ''TestPassword123!''" ?d
             "\<lambda>i. i" "start Map.empty"] h
  show ?thesis by (simp add: map_unat_blit)
qed

end
